theory Spec2Isabelle
  imports Complex_Main
begin

section \<open>Numbers and strings of the host language\<close>

text \<open>
  The component is TypeScript. A \<open>number\<close> is a binary64 floating-point value, here the
  real it denotes, or one of \<open>Infinity\<close>, \<open>-Infinity\<close> and \<open>NaN\<close> (\<open>jsnum\<close>). Byte counts
  (\<open>File.size\<close>, \<open>Blob.size\<close>, below \<open>2^53\<close>) and the pixel dimensions of an image element
  (\<open>unsigned long\<close>) are non-negative integers that a number holds exactly; they are
  modelled as \<open>nat\<close>.

  The divisions and products of the crop extractor and of the size ratio are rounded as
  binary64 arithmetic rounds them: to the nearest value with a significand of 53 bits,
  a tie going to the even significand, with the exponent of the last place not below
  \<open>-1074\<close> and an overflow to infinity from \<open>2^1024\<close> on. A division by zero does not raise:
  it yields \<open>Infinity\<close> or \<open>NaN\<close>, so that HOL's \<open>x / 0 = 0\<close> never stands in for it.
  The logarithm and the power of \<open>formatBytes\<close> are written over the reals.
\<close>

datatype jsnum = Fin real | PosInf | NegInf | NaN

text \<open>The nearest integer, a tie going to the even one.\<close>

definition round_even :: "real \<Rightarrow> int" where
  "round_even y =
     (let f = \<lfloor>y\<rfloor>; d = y - of_int f in
      if d < 1 / 2 then f else if 1 / 2 < d then f + 1 else if even f then f else f + 1)"

text \<open>The exponent of the unit in the last place of the binary64 values around \<open>x\<close>.\<close>

definition binary64_exp :: "real \<Rightarrow> int" where
  "binary64_exp x = max (\<lfloor>log 2 \<bar>x\<bar>\<rfloor> - 52) (- 1074)"

text \<open>\<open>fl x\<close> is \<open>x\<close> rounded to binary64, before the check for overflow.\<close>

definition fl :: "real \<Rightarrow> real" where
  "fl x =
     (if x = 0 then 0
      else of_int (round_even (x / 2 powr of_int (binary64_exp x))) * 2 powr of_int (binary64_exp x))"

text \<open>The number an arithmetic operation yields when its exact result is \<open>x\<close>.\<close>

definition js_num :: "real \<Rightarrow> jsnum" where
  "js_num x =
     (let y = fl x in
      if 2 ^ 1024 \<le> y then PosInf else if y \<le> - (2 ^ 1024) then NegInf else Fin y)"

text \<open>\<open>a / b\<close> for two non-negative integers (the dimensions of an image element).\<close>

definition js_div :: "nat \<Rightarrow> nat \<Rightarrow> jsnum" where
  "js_div a b =
     (if b = 0 then (if a = 0 then NaN else PosInf) else js_num (real a / real b))"

text \<open>\<open>x * s\<close> for a finite number \<open>x\<close> and the result \<open>s\<close> of a division.\<close>

fun js_mul :: "real \<Rightarrow> jsnum \<Rightarrow> jsnum" where
  "js_mul x (Fin q) = js_num (x * q)"
| "js_mul x PosInf = (if x = 0 then NaN else if 0 < x then PosInf else NegInf)"
| "js_mul x NegInf = (if x = 0 then NaN else if 0 < x then NegInf else PosInf)"
| "js_mul x NaN = NaN"

text \<open>
  The conversion of a finite number to the IDL type \<open>unsigned long\<close>: the fraction is
  dropped and the integer is taken modulo \<open>2^32\<close>. An attribute that reflects an
  \<open>unsigned long\<close>, as the width and the height of a canvas do, takes its default when
  the value is above \<open>2^31 - 1\<close>.
\<close>

definition to_unsigned_long :: "real \<Rightarrow> nat" where
  "to_unsigned_long x = nat ((if 0 \<le> x then \<lfloor>x\<rfloor> else \<lceil>x\<rceil>) mod 2 ^ 32)"

definition canvas_dimension :: "nat \<Rightarrow> real \<Rightarrow> nat" where
  "canvas_dimension dflt x =
     (let v = to_unsigned_long x in if v \<le> 2147483647 then v else dflt)"

text \<open>\<open>Math.round\<close>: the nearest integer, a tie going up.\<close>

definition js_round :: "real \<Rightarrow> int" where
  "js_round x = \<lfloor>x + 1 / 2\<rfloor>"

text \<open>\<open>xs[i]\<close>: an index outside the array yields \<open>undefined\<close>, here \<open>None\<close>.\<close>

definition js_index :: "'a list \<Rightarrow> int \<Rightarrow> 'a option" where
  "js_index xs i = (if 0 \<le> i \<and> nat i < length xs then Some (xs ! nat i) else None)"

text \<open>String concatenation with a value that may be \<open>undefined\<close>.\<close>

definition js_string_of :: "string option \<Rightarrow> string" where
  "js_string_of v = (case v of Some s \<Rightarrow> s | None \<Rightarrow> ''undefined'')"

definition digit_char :: "nat \<Rightarrow> char" where
  "digit_char d = ''0123456789'' ! (d mod 10)"

fun show_nat :: "nat \<Rightarrow> string" where
  "show_nat n = (if n < 10 then [digit_char n] else show_nat (n div 10) @ [digit_char (n mod 10)])"

declare show_nat.simps [simp del]

text \<open>
  The string the source obtains for the number \<open>m / 100\<close> (\<open>m\<close> a non-negative integer)
  when it is concatenated with a string: the integer part, then at most two decimals
  with no trailing zero, and no decimal point for a whole number.
\<close>

definition show_hundredths :: "nat \<Rightarrow> string" where
  "show_hundredths m =
     show_nat (m div 100) @
     (let f = m mod 100 in
      if f = 0 then []
      else CHR ''.'' # digit_char (f div 10) # (if f mod 10 = 0 then [] else [digit_char (f mod 10)]))"

text \<open>
  \<open>String.prototype.toLowerCase\<close> on the ASCII letters. No character outside ASCII is
  mapped to one of the characters of \<open>.heic\<close>, the only string the result is compared with.
\<close>

definition toLowerCase_char :: "char \<Rightarrow> char" where
  "toLowerCase_char c =
     (case map_of (zip ''ABCDEFGHIJKLMNOPQRSTUVWXYZ'' ''abcdefghijklmnopqrstuvwxyz'') c of
        Some l \<Rightarrow> l
      | None \<Rightarrow> c)"

definition toLowerCase :: "string \<Rightarrow> string" where
  "toLowerCase s = map toLowerCase_char s"

definition endsWith :: "string \<Rightarrow> string \<Rightarrow> bool" where
  "endsWith s suf = (length suf \<le> length s \<and> drop (length s - length suf) s = suf)"

section \<open>Size statistics\<close>

text \<open>
  \<^verbatim>\<open>
  const formatBytes = (bytes: number): string => {
    if (bytes === 0) return '0 Bytes';
    const k = 1024;
    const sizes = ['Bytes', 'KB', 'MB', 'GB'];
    const i = Math.floor(Math.log(bytes) / Math.log(k));
    return Math.round((bytes / Math.pow(k, i)) * 100) / 100 + ' ' + sizes[i];
  };
  \<close>
  It is called on \<open>originalSize\<close> and \<open>compressedSize\<close> only, which hold byte counts.
\<close>

definition sizes :: "string list" where
  "sizes = [''Bytes'', ''KB'', ''MB'', ''GB'']"

definition unit_index :: "nat \<Rightarrow> int" where
  "unit_index bytes = \<lfloor>ln (real bytes) / ln 1024\<rfloor>"

definition formatBytes :: "nat \<Rightarrow> string" where
  "formatBytes bytes =
     (if bytes = 0 then ''0 Bytes''
      else let i = unit_index bytes in
        show_hundredths (nat (js_round ((real bytes / 1024 powr (real_of_int i)) * 100)))
          @ '' '' @ js_string_of (js_index sizes i))"

section \<open>Data model\<close>

text \<open>
  A \<open>Blob\<close> has content and a declared media type; a \<open>File\<close> is a blob with a name.
  \<open>Blob.size\<close> is the length of the content.
\<close>

record Blob =
  blob_bytes :: "nat list"
  blob_type :: string

record File = Blob +
  file_name :: string

definition blob_size :: "'a Blob_scheme \<Rightarrow> nat" where
  "blob_size b = length (blob_bytes b)"

text \<open>\<open>new File(parts, name, {type})\<close>\<close>

definition File_new :: "'a Blob_scheme list \<Rightarrow> string \<Rightarrow> string \<Rightarrow> File" where
  "File_new parts name ty =
     \<lparr>blob_bytes = concat (map blob_bytes parts), blob_type = ty, file_name = name\<rparr>"

text \<open>
  A blob that \<open>canvas.toBlob\<close> yields encodes the bitmap of the canvas; the model keeps
  the pixel dimensions of that raster with it.
\<close>

record RasterBlob = Blob +
  raster_width :: nat
  raster_height :: nat

text \<open>
  \<open>PixelCrop\<close> of the cropping widget, in the coordinates of the displayed image
  (fields \<open>x\<close>, \<open>y\<close>, \<open>width\<close>, \<open>height\<close>); \<open>Crop\<close> adds the unit.
\<close>

record PixelCrop =
  crop_x :: real
  crop_y :: real
  crop_width :: real
  crop_height :: real

datatype crop_unit = Px | Percent

record Crop = PixelCrop +
  crop_unit :: crop_unit

text \<open>
  The \<open>HTMLImageElement\<close> under the crop widget: \<open>naturalWidth\<close>, \<open>naturalHeight\<close>
  are the native pixel dimensions, \<open>width\<close>, \<open>height\<close> the displayed ones.
\<close>

record image =
  naturalWidth :: nat
  naturalHeight :: nat
  img_width :: nat
  img_height :: nat

text \<open>
  A canvas has the dimensions of its bitmap, in whole pixels, and records the
  \<open>drawImage\<close> calls made on its context: the source rectangle \<open>(sx, sy, sw, sh)\<close> read
  from the image and the destination rectangle \<open>(dx, dy, dw, dh)\<close> written on the canvas.
  A new canvas is 300 by 150.
\<close>

record drawImage_call =
  src_image :: image
  sx :: jsnum
  sy :: jsnum
  sw :: jsnum
  sh :: jsnum
  dx :: real
  dy :: real
  dw :: real
  dh :: real

record canvas =
  canvas_width :: nat
  canvas_height :: nat
  drawn :: "drawImage_call list"

datatype format = Jpeg | Png | Webp | Pdf

fun format_string :: "format \<Rightarrow> string" where
  "format_string Jpeg = ''jpeg''"
| "format_string Png = ''png''"
| "format_string Webp = ''webp''"
| "format_string Pdf = ''pdf''"

text \<open>The component state, one field for each \<open>useState\<close>.\<close>

record state =
  selectedFile :: "File option"
  originalImage :: "string option"
  processedImage :: "string option"
  isProcessing :: bool
  quality :: real
  maxWidth :: real
  maxHeight :: real
  outputFormat :: format
  showCrop :: bool
  crop :: "Crop option"
  completedCrop :: "PixelCrop option"
  originalSize :: nat
  compressedSize :: nat

text \<open>A JavaScript \<open>Error\<close> with its message.\<close>

datatype error = Error string

text \<open>The options handed to the compression library.\<close>

record options =
  maxSizeMB :: real
  maxWidthOrHeight :: real
  useWebWorker :: bool
  opt_quality :: real
  fileType :: string

text \<open>
  The document library. Only what the component asks of it is recorded: the
  constructor's options, and the images placed on each page. A new document has one page;
  \<open>addImage\<close> places an image on the last page.
\<close>

datatype orientation = Landscape | Portrait

record pdf_image =
  image_data :: string
  image_format :: string
  image_x :: nat
  image_y :: nat
  image_w :: nat
  image_h :: nat

record jsPDF =
  pdf_orientation :: orientation
  pdf_unit :: string
  pdf_format :: "nat \<times> nat"
  pdf_pages :: "pdf_image list list"

definition jsPDF_new :: "orientation \<Rightarrow> string \<Rightarrow> nat \<times> nat \<Rightarrow> jsPDF" where
  "jsPDF_new orient u fmt =
     \<lparr>pdf_orientation = orient, pdf_unit = u, pdf_format = fmt, pdf_pages = [[]]\<rparr>"

definition addImage :: "jsPDF \<Rightarrow> string \<Rightarrow> string \<Rightarrow> nat \<Rightarrow> nat \<Rightarrow> nat \<Rightarrow> nat \<Rightarrow> jsPDF" where
  "addImage pdf d f px py w h =
     pdf\<lparr>pdf_pages := butlast (pdf_pages pdf) @
        [last (pdf_pages pdf) @
           [\<lparr>image_data = d, image_format = f, image_x = px, image_y = py, image_w = w, image_h = h\<rparr>]]\<rparr>"

text \<open>
  The collaborators outside the component, as parameters:
  \<^item> \<open>heic2any\<close>: the HEIC decoder, which yields a blob or fails;
  \<^item> \<open>getContext2d\<close>: whether a canvas gives a 2d context;
  \<^item> \<open>encode_canvas\<close>: the encoder behind \<open>canvas.toBlob\<close>, \<open>None\<close> for a null blob;
  \<^item> \<open>imageCompression\<close>: the compression library, which yields a file or fails;
  \<^item> \<open>load_image\<close>: the pixel dimensions of a file once it is decoded as an image,
    \<open>None\<close> when it never loads;
  \<^item> \<open>dataURL\<close>: the data URL a \<open>FileReader\<close> gives for a file;
  \<^item> \<open>pdf_output\<close>: the serialisation of a document;
  \<^item> \<open>createObjectURL\<close>: the object URL of a blob.
\<close>

record env =
  heic2any :: "File \<Rightarrow> error + Blob"
  getContext2d :: bool
  encode_canvas :: "canvas \<Rightarrow> string \<Rightarrow> nat list option"
  imageCompression :: "File \<Rightarrow> options \<Rightarrow> error + File"
  load_image :: "File \<Rightarrow> (nat \<times> nat) option"
  dataURL :: "File \<Rightarrow> string"
  pdf_output :: "jsPDF \<Rightarrow> Blob"
  createObjectURL :: "Blob \<Rightarrow> string"

text \<open>
  What a handler does besides updating the state: the call of the HEIC decoder, the
  diagnostics, the blocking alert, and the file readers it starts. A reader's
  \<open>onload\<close> runs after the handler and stores the data URL.
\<close>

datatype effect =
    CallHeic2any File
  | ConsoleError string
  | Alert string
  | ReadOriginal File
  | ReadProcessed File

fun reader_onload :: "env \<Rightarrow> effect \<Rightarrow> state \<Rightarrow> state" where
  "reader_onload env (ReadOriginal f) s = s\<lparr>originalImage := Some (dataURL env f)\<rparr>"
| "reader_onload env (ReadProcessed f) s = s\<lparr>processedImage := Some (dataURL env f)\<rparr>"
| "reader_onload env _ s = s"

section \<open>Input acquisition\<close>

text \<open>
  \<open>name.replace(/\.heic$/i, '.jpg')\<close>: a final \<open>.heic\<close>, in any case, becomes \<open>.jpg\<close>.
\<close>

definition replace_heic_suffix :: "string \<Rightarrow> string" where
  "replace_heic_suffix name =
     (if endsWith (toLowerCase name) ''.heic'' then take (length name - 5) name @ ''.jpg''
      else name)"

text \<open>
  \<open>handleFileSelect\<close>, on the first file of the change event (\<open>None\<close> when the event
  carries no file). The state updates of one run of the handler are applied in order.
  \<^verbatim>\<open>
    const file = event.target.files?.[0];
    if (!file) return;
    setSelectedFile(file);
    setOriginalSize(file.size);
    if (file.type === 'image/heic' || file.name.toLowerCase().endsWith('.heic')) {
      try {
        const heic2any = (await import('heic2any')).default;
        const convertedBlob = await heic2any({ blob: file, toType: 'image/jpeg' });
        const convertedFile = new File([convertedBlob as Blob],
          file.name.replace(/\.heic$/i, '.jpg'), { type: 'image/jpeg' });
        const reader = new FileReader();
        reader.onload = (e) => setOriginalImage(e.target?.result as string);
        reader.readAsDataURL(convertedFile);
        setSelectedFile(convertedFile);
      } catch (error) {
        console.error('HEIC conversion error:', error);
        alert('Error converting HEIC file');
      }
    } else {
      const reader = new FileReader();
      reader.onload = (e) => setOriginalImage(e.target?.result as string);
      reader.readAsDataURL(file);
    }
    setProcessedImage(null);
    setCompletedCrop(undefined);
    setShowCrop(false);
  \<close>
\<close>

definition handleFileSelect :: "env \<Rightarrow> File option \<Rightarrow> state \<Rightarrow> state \<times> effect list" where
  "handleFileSelect env ev s =
     (case ev of
        None \<Rightarrow> (s, [])
      | Some f \<Rightarrow>
          let s1 = s\<lparr>selectedFile := Some f, originalSize := blob_size f\<rparr>;
              (s2, effs) =
                (if blob_type f = ''image/heic'' \<or> endsWith (toLowerCase (file_name f)) ''.heic''
                 then
                   (case heic2any env f of
                      Inr convertedBlob \<Rightarrow>
                        let convertedFile =
                              File_new [convertedBlob] (replace_heic_suffix (file_name f)) ''image/jpeg''
                        in (s1\<lparr>selectedFile := Some convertedFile\<rparr>,
                            [CallHeic2any f, ReadOriginal convertedFile])
                    | Inl e \<Rightarrow>
                        (s1, [CallHeic2any f, ConsoleError ''HEIC conversion error:'',
                              Alert ''Error converting HEIC file'']))
                 else (s1, [ReadOriginal f]))
          in (s2\<lparr>processedImage := None, completedCrop := None, showCrop := False\<rparr>, effs))"

text \<open>
  The specification's condition for HEIC decoding, in its own words: the declared MIME
  type is the HEIC image type, or the filename ends with the \<open>.heic\<close> suffix, both compared
  without regard to case. It is written from the specification, to be compared with the
  condition of \<open>handleFileSelect\<close>.
\<close>

definition equal_ignoring_case :: "string \<Rightarrow> string \<Rightarrow> bool" where
  "equal_ignoring_case a b = (toLowerCase a = toLowerCase b)"

definition spec_requires_heic :: "File \<Rightarrow> bool" where
  "spec_requires_heic f =
     (equal_ignoring_case (blob_type f) ''image/heic'' \<or>
      (5 \<le> length (file_name f) \<and>
       equal_ignoring_case (drop (length (file_name f) - 5) (file_name f)) ''.heic''))"

section \<open>Crop extractor\<close>

text \<open>
  \<^verbatim>\<open>
  const getCroppedImage = (image: HTMLImageElement, crop: PixelCrop): Promise<Blob> => {
    const canvas = document.createElement('canvas');
    const scaleX = image.naturalWidth / image.width;
    const scaleY = image.naturalHeight / image.height;
    canvas.width = crop.width;
    canvas.height = crop.height;
    const ctx = canvas.getContext('2d');
    if (!ctx) throw new Error('No 2d context');
    ctx.drawImage(image, crop.x * scaleX, crop.y * scaleY, crop.width * scaleX,
      crop.height * scaleY, 0, 0, crop.width, crop.height);
    return new Promise((resolve, reject) => {
      canvas.toBlob((blob) => {
        if (!blob) { reject(new Error('Canvas is empty')); return; }
        resolve(blob);
      }, 'image/jpeg');
    });
  };
  \<close>
  \<open>getCroppedImage_canvas\<close> is the function up to the \<open>drawImage\<close> call: it yields the
  canvas on which \<open>toBlob\<close> is then called. The assignments to \<open>canvas.width\<close> and
  \<open>canvas.height\<close> convert the number to a canvas dimension. The blob of \<open>toBlob\<close> has the
  requested type, the content the encoder gives and the raster of the canvas.
\<close>

definition drawImage ::
  "canvas \<Rightarrow> image \<Rightarrow> jsnum \<Rightarrow> jsnum \<Rightarrow> jsnum \<Rightarrow> jsnum \<Rightarrow> real \<Rightarrow> real \<Rightarrow> real \<Rightarrow> real \<Rightarrow> canvas" where
  "drawImage cv img x y w h x' y' w' h' =
     cv\<lparr>drawn := drawn cv @
        [\<lparr>src_image = img, sx = x, sy = y, sw = w, sh = h, dx = x', dy = y', dw = w', dh = h'\<rparr>]\<rparr>"

definition toBlob :: "env \<Rightarrow> canvas \<Rightarrow> string \<Rightarrow> RasterBlob option" where
  "toBlob env cv ty =
     map_option
       (\<lambda>bs. \<lparr>blob_bytes = bs, blob_type = ty,
              raster_width = canvas_width cv, raster_height = canvas_height cv\<rparr>)
       (encode_canvas env cv ty)"

definition getCroppedImage_canvas :: "env \<Rightarrow> image \<Rightarrow> PixelCrop \<Rightarrow> error + canvas" where
  "getCroppedImage_canvas env img c =
     (let cv0 = \<lparr>canvas_width = 300, canvas_height = 150, drawn = []\<rparr>;
          scaleX = js_div (naturalWidth img) (img_width img);
          scaleY = js_div (naturalHeight img) (img_height img);
          cv1 = cv0\<lparr>canvas_width := canvas_dimension 300 (crop_width c)\<rparr>;
          cv2 = cv1\<lparr>canvas_height := canvas_dimension 150 (crop_height c)\<rparr>
      in if \<not> getContext2d env then Inl (Error ''No 2d context'')
         else Inr (drawImage cv2 img
                (js_mul (crop_x c) scaleX) (js_mul (crop_y c) scaleY)
                (js_mul (crop_width c) scaleX) (js_mul (crop_height c) scaleY)
                0 0 (crop_width c) (crop_height c)))"

definition getCroppedImage :: "env \<Rightarrow> image \<Rightarrow> PixelCrop \<Rightarrow> error + RasterBlob" where
  "getCroppedImage env img c =
     (case getCroppedImage_canvas env img c of
        Inl e \<Rightarrow> Inl e
      | Inr cv \<Rightarrow>
          (case toBlob env cv ''image/jpeg'' of
             None \<Rightarrow> Inl (Error ''Canvas is empty'')
           | Some b \<Rightarrow> Inr b))"

text \<open>The two rectangles of a \<open>drawImage\<close> call.\<close>

definition source_rect :: "drawImage_call \<Rightarrow> jsnum \<times> jsnum \<times> jsnum \<times> jsnum" where
  "source_rect d = (sx d, sy d, sw d, sh d)"


text \<open>
  The fields of a \<open>PixelCrop\<close> are numbers: each is a binary64 value. \<open>doubles_below b c\<close>
  says so of the four fields of \<open>c\<close>, with magnitudes below \<open>b\<close>.
\<close>

definition doubles_below :: "real \<Rightarrow> PixelCrop \<Rightarrow> bool" where
  "doubles_below b c =
     list_all (\<lambda>v. fl v = v \<and> \<bar>v\<bar> < b) [crop_x c, crop_y c, crop_width c, crop_height c]"

section \<open>Compression and export\<close>

text \<open>
  \<^verbatim>\<open>
  const convertToPDF = async (file: File): Promise<Blob> => {
    return new Promise((resolve) => {
      const reader = new FileReader();
      reader.onload = (e) => {
        const img = new Image();
        img.onload = () => {
          const pdf = new jsPDF({
            orientation: img.width > img.height ? 'landscape' : 'portrait',
            unit: 'px',
            format: [img.width, img.height]
          });
          pdf.addImage(e.target?.result as string, 'JPEG', 0, 0, img.width, img.height);
          const pdfBlob = pdf.output('blob');
          resolve(pdfBlob);
        };
        img.src = e.target?.result as string;
      };
      reader.readAsDataURL(file);
    });
  };
  \<close>
  The promise is resolved in the image's \<open>onload\<close> only: when the file never loads as an
  image, \<open>convertToPDF\<close> never returns, which is the value \<open>None\<close>.
  \<open>convertToPDF_doc\<close> is the document on which \<open>output\<close> is called.
\<close>

definition convertToPDF_doc :: "env \<Rightarrow> File \<Rightarrow> jsPDF option" where
  "convertToPDF_doc env f =
     (case load_image env f of
        None \<Rightarrow> None
      | Some (w, h) \<Rightarrow>
          let pdf = jsPDF_new (if w > h then Landscape else Portrait) ''px'' (w, h)
          in Some (addImage pdf (dataURL env f) ''JPEG'' 0 0 w h))"

definition convertToPDF :: "env \<Rightarrow> File \<Rightarrow> Blob option" where
  "convertToPDF env f = map_option (pdf_output env) (convertToPDF_doc env f)"

text \<open>
  \<open>processImage\<close>; \<open>imgRef\<close> is the image element under the crop widget, if it is mounted.
  \<^verbatim>\<open>
    if (!selectedFile) return;
    setIsProcessing(true);
    try {
      let fileToProcess = selectedFile;
      if (completedCrop && imgRef.current) {
        const croppedBlob = await getCroppedImage(imgRef.current, completedCrop);
        fileToProcess = new File([croppedBlob], selectedFile.name, { type: selectedFile.type });
      }
      const options = {
        maxSizeMB: 10,
        maxWidthOrHeight: Math.max(maxWidth, maxHeight),
        useWebWorker: true,
        quality: quality / 100,
        fileType: `image/${outputFormat === 'jpeg' ? 'jpeg' : outputFormat}`,
      };
      const compressedFile = await imageCompression(fileToProcess, options);
      if (outputFormat === 'pdf') {
        const pdfBlob = await convertToPDF(compressedFile);
        setCompressedSize(pdfBlob.size);
        const url = URL.createObjectURL(pdfBlob);
        setProcessedImage(url);
      } else {
        setCompressedSize(compressedFile.size);
        const reader = new FileReader();
        reader.onload = (e) => setProcessedImage(e.target?.result as string);
        reader.readAsDataURL(compressedFile);
      }
    } catch (error) {
      console.error('Processing error:', error);
      alert('Error processing image');
    }
    setIsProcessing(false);
  \<close>
  \<open>fileToProcess\<close> is the value of that variable when the compressor is called, or the
  error thrown before. \<open>processImage\<close> is \<open>None\<close> when \<open>convertToPDF\<close> never returns.
\<close>

definition fileToProcess :: "env \<Rightarrow> image option \<Rightarrow> state \<Rightarrow> File \<Rightarrow> error + File" where
  "fileToProcess env imgRef s sel =
     (case (completedCrop s, imgRef) of
        (Some c, Some img) \<Rightarrow>
          (case getCroppedImage env img c of
             Inl e \<Rightarrow> Inl e
           | Inr croppedBlob \<Rightarrow> Inr (File_new [croppedBlob] (file_name sel) (blob_type sel)))
      | _ \<Rightarrow> Inr sel)"

definition compression_options :: "state \<Rightarrow> options" where
  "compression_options s =
     \<lparr>maxSizeMB = 10,
      maxWidthOrHeight = max (maxWidth s) (maxHeight s),
      useWebWorker = True,
      opt_quality = fl (quality s / 100),
      fileType = ''image/'' @ (if outputFormat s = Jpeg then ''jpeg'' else format_string (outputFormat s))\<rparr>"

definition processing_failed :: "state \<Rightarrow> state \<times> effect list" where
  "processing_failed s =
     (s\<lparr>isProcessing := False\<rparr>, [ConsoleError ''Processing error:'', Alert ''Error processing image''])"

definition processImage :: "env \<Rightarrow> image option \<Rightarrow> state \<Rightarrow> (state \<times> effect list) option" where
  "processImage env imgRef s =
     (case selectedFile s of
        None \<Rightarrow> Some (s, [])
      | Some sel \<Rightarrow>
          let s1 = s\<lparr>isProcessing := True\<rparr> in
          (case fileToProcess env imgRef s sel of
             Inl e \<Rightarrow> Some (processing_failed s1)
           | Inr f \<Rightarrow>
               (case imageCompression env f (compression_options s) of
                  Inl e \<Rightarrow> Some (processing_failed s1)
                | Inr compressedFile \<Rightarrow>
                    if outputFormat s = Pdf then
                      (case convertToPDF env compressedFile of
                         None \<Rightarrow> None
                       | Some pdfBlob \<Rightarrow>
                           Some (s1\<lparr>compressedSize := blob_size pdfBlob,
                                    processedImage := Some (createObjectURL env pdfBlob),
                                    isProcessing := False\<rparr>, []))
                    else
                      Some (s1\<lparr>compressedSize := blob_size compressedFile,
                               isProcessing := False\<rparr>, [ReadProcessed compressedFile]))))"

text \<open>
  \<^verbatim>\<open>
  const compressionRatio = originalSize > 0 && compressedSize > 0
    ? Math.round((1 - compressedSize / originalSize) * 100)
    : 0;
  \<close>
\<close>

definition compressionRatio :: "state \<Rightarrow> int" where
  "compressionRatio s =
     (if originalSize s > 0 \<and> compressedSize s > 0
      then js_round (fl (fl (1 - fl (real (compressedSize s) / real (originalSize s))) * 100))
      else 0)"

section \<open>Concrete inputs\<close>

text \<open>The state of a freshly mounted component: the arguments of the \<open>useState\<close> calls.\<close>

definition initial_state :: state where
  "initial_state =
     \<lparr>selectedFile = None, originalImage = None, processedImage = None, isProcessing = False,
      quality = 80, maxWidth = 1920, maxHeight = 1080, outputFormat = Jpeg, showCrop = False,
      crop = None, completedCrop = None, originalSize = 0, compressedSize = 0\<rparr>"

text \<open>
  A browser in which HEIC decoding fails, every canvas encodes to three bytes, the
  compressor returns its input and every file decodes to a 640 by 480 image.
\<close>

definition sample_env :: env where
  "sample_env =
     \<lparr>heic2any = (\<lambda>f. Inl (Error ''decode failed'')),
      getContext2d = True,
      encode_canvas = (\<lambda>cv ty. Some [255, 216, 255]),
      imageCompression = (\<lambda>f opts. Inr f),
      load_image = (\<lambda>f. Some (640, 480)),
      dataURL = (\<lambda>f. ''data:'' @ blob_type f),
      pdf_output = (\<lambda>d. \<lparr>blob_bytes = [37, 80, 68, 70], blob_type = ''application/pdf''\<rparr>),
      createObjectURL = (\<lambda>b. ''blob:0'')\<rparr>"

definition heic_photo :: File where
  "heic_photo =
     \<lparr>blob_bytes = [0, 0, 0, 24], blob_type = ''image/heic'', file_name = ''IMG_0001.HEIC''\<rparr>"

text \<open>A HEIC file for which the browser reports no type, and one without the suffix.\<close>

definition untyped_heic_photo :: File where
  "untyped_heic_photo =
     \<lparr>blob_bytes = [0, 0, 0, 24], blob_type = [], file_name = ''Holiday.HeIc''\<rparr>"

definition unnamed_heic_photo :: File where
  "unnamed_heic_photo =
     \<lparr>blob_bytes = [0, 0, 0, 24], blob_type = ''image/heic'', file_name = ''IMG_0002''\<rparr>"

definition png_photo :: File where
  "png_photo =
     \<lparr>blob_bytes = [137, 80, 78, 71], blob_type = ''image/png'', file_name = ''shot.png''\<rparr>"

text \<open>An image of 2000 by 1000 pixels displayed at half its size, and a crop on it.\<close>

definition half_displayed :: image where
  "half_displayed =
     \<lparr>naturalWidth = 2000, naturalHeight = 1000, img_width = 1000, img_height = 500\<rparr>"

definition sample_crop :: PixelCrop where
  "sample_crop = \<lparr>crop_x = 10, crop_y = 20, crop_width = 300, crop_height = 200\<rparr>"

text \<open>A crop whose width and height are not whole numbers.\<close>

definition fractional_crop :: PixelCrop where
  "fractional_crop = \<lparr>crop_x = 10, crop_y = 20, crop_width = 601 / 2, crop_height = 803 / 4\<rparr>"

text \<open>A file of 40 bytes processed to 17 bytes.\<close>

definition tie_state :: state where
  "tie_state = initial_state\<lparr>originalSize := 40, compressedSize := 17\<rparr>"

text \<open>A state that holds an earlier file with its processed result and a completed crop.\<close>

definition busy_state :: state where
  "busy_state = initial_state
     \<lparr>selectedFile := Some png_photo, originalImage := Some ''data:image/png'',
      processedImage := Some ''data:image/jpeg'', showCrop := True,
      completedCrop := Some sample_crop, originalSize := 4, compressedSize := 3\<rparr>"

section \<open>Properties of the binary64 rounding\<close>

lemma round_even_int: "round_even (of_int n) = n"
  by (simp add: round_even_def)

lemma round_even_err: "\<bar>of_int (round_even y) - y\<bar> \<le> 1 / 2"
proof -
  have "of_int \<lfloor>y\<rfloor> \<le> y" "y < of_int \<lfloor>y\<rfloor> + 1" by linarith+
  then show ?thesis by (auto simp: round_even_def Let_def)
qed

lemma binary64_exp_eq:
  assumes "(2::real) powr of_int k \<le> \<bar>x\<bar>" "\<bar>x\<bar> < 2 powr of_int (k + 1)"
  shows "binary64_exp x = max (k - 52) (- 1074)"
proof -
  have "0 < \<bar>x\<bar>" using assms(1) by (smt (verit) powr_gt_zero)
  then have "\<lfloor>log 2 \<bar>x\<bar>\<rfloor> = k"
    using assms by (simp add: floor_log_eq_powr_iff)
  then show ?thesis by (simp add: binary64_exp_def)
qed

text \<open>The rounding of a value in the binade \<open>[2^k, 2^(k+1))\<close>, for evaluation.\<close>

lemma fl_eval:
  assumes "2 powr of_int k \<le> \<bar>x\<bar>" "\<bar>x\<bar> < 2 powr of_int (k + 1)" "- 1022 \<le> k"
  shows "fl x = of_int (round_even (x / 2 powr of_int (k - 52))) * 2 powr of_int (k - 52)"
proof -
  have "x \<noteq> 0" using assms(1) by (smt (verit) powr_gt_zero)
  moreover have "binary64_exp x = k - 52"
    using binary64_exp_eq [OF assms(1,2)] assms(3) by simp
  ultimately show ?thesis by (simp add: fl_def)
qed

lemma last_place_bound:
  assumes "x \<noteq> 0"
  shows "(2::real) powr of_int (binary64_exp x) \<le> \<bar>x\<bar> * 2 powr (- 52) + 2 powr (- 1074)"
proof -
  have pos: "0 < \<bar>x\<bar>" using assms by simp
  have "2 powr of_int \<lfloor>log 2 \<bar>x\<bar>\<rfloor> \<le> 2 powr log 2 \<bar>x\<bar>"
    by (rule powr_mono) simp_all
  also have "\<dots> = \<bar>x\<bar>" using pos by simp
  finally have a: "2 powr of_int \<lfloor>log 2 \<bar>x\<bar>\<rfloor> \<le> \<bar>x\<bar>" .
  have b: "(2::real) powr of_int (\<lfloor>log 2 \<bar>x\<bar>\<rfloor> - 52)
      = 2 powr of_int \<lfloor>log 2 \<bar>x\<bar>\<rfloor> * 2 powr (- 52)"
    by (simp add: powr_add [symmetric])
  show ?thesis
  proof (cases "\<lfloor>log 2 \<bar>x\<bar>\<rfloor> - 52 \<le> - 1074")
    case True
    then have "binary64_exp x = - 1074" by (simp add: binary64_exp_def)
    then show ?thesis using pos by simp
  next
    case False
    then have "binary64_exp x = \<lfloor>log 2 \<bar>x\<bar>\<rfloor> - 52" by (simp add: binary64_exp_def)
    then have "(2::real) powr of_int (binary64_exp x)
        = 2 powr of_int \<lfloor>log 2 \<bar>x\<bar>\<rfloor> * 2 powr (- 52)"
      using b by simp
    also have "\<dots> \<le> \<bar>x\<bar> * 2 powr (- 52)" using a by (simp add: mult_right_mono)
    finally show ?thesis by (smt (verit) powr_gt_zero)
  qed
qed

text \<open>The rounding error: half a unit in the last place.\<close>

lemma fl_err: "\<bar>fl x - x\<bar> \<le> \<bar>x\<bar> * 2 powr (- 53) + 2 powr (- 1075)"
proof (cases "x = 0")
  case True
  then show ?thesis by (simp add: fl_def)
next
  case False
  define E :: real where "E = 2 powr of_int (binary64_exp x)"
  have Epos: "0 < E" by (simp add: E_def)
  define n where "n = round_even (x / E)"
  have "fl x = of_int n * E" using False by (simp add: fl_def n_def E_def)
  then have "fl x - x = (of_int n - x / E) * E" using Epos by (simp add: field_simps)
  then have "\<bar>fl x - x\<bar> = \<bar>of_int n - x / E\<bar> * E" using Epos by (simp add: abs_mult)
  also have "\<dots> \<le> (1 / 2) * E"
    using round_even_err [of "x / E"] Epos unfolding n_def by (intro mult_right_mono) simp_all
  also have "\<dots> \<le> (1 / 2) * (\<bar>x\<bar> * 2 powr (- 52) + 2 powr (- 1074))"
    using last_place_bound [OF False] unfolding E_def by simp
  also have "\<dots> = \<bar>x\<bar> * 2 powr (- 53) + 2 powr (- 1075)"
  proof -
    have "(2::real) powr (- 52) = 2 * 2 powr (- 53)" "(2::real) powr (- 1074) = 2 * 2 powr (- 1075)"
      by (simp_all add: powr_minus_divide)
    then show ?thesis by (simp add: algebra_simps)
  qed
  finally show ?thesis .
qed

lemma fl_err_coarse: "\<bar>fl x - x\<bar> \<le> \<bar>x\<bar> / 2 ^ 53 + 1 / 2 ^ 60"
proof -
  have "(2::real) powr (- 1075) \<le> 2 powr (- 60)" by (rule powr_mono) simp_all
  then show ?thesis using fl_err [of x] by (simp add: powr_minus_divide)
qed

text \<open>
  The error of \<open>(1 - t) * 100\<close> computed in three rounded operations: the division that
  gives \<open>t\<close>, the subtraction and the product.
\<close>

lemma ratio_err:
  assumes "0 < t"
  shows "\<bar>fl (fl (1 - fl t) * 100) - (1 - t) * 100\<bar> \<le> (1 + t) / 2 ^ 44"
proof -
  define e :: real where "e = 1 / 2 ^ 53"
  define n :: real where "n = 1 / 2 ^ 60"
  have e: "0 \<le> e" "e \<le> 1 / 4" and n: "0 \<le> n" "n \<le> 1 / 8" "201 * n \<le> 112 * e"
    by (simp_all add: e_def n_def)
  have err: "\<bar>fl x - x\<bar> \<le> \<bar>x\<bar> * e + n" for x
    using fl_err_coarse [of x] by (simp add: e_def n_def)
  define q where "q = fl t"
  define a where "a = fl (1 - q)"
  define p where "p = fl (a * 100)"
  have te: "0 \<le> t * e" "t * e \<le> t * (1 / 4)"
    using assms e by (simp_all add: mult_left_mono)
  have 1: "\<bar>q - t\<bar> \<le> t * e + n"
    using err [of t] assms by (simp add: q_def)
  have b1: "\<bar>1 - q\<bar> \<le> 2 + 2 * t" using 1 te n assms by linarith
  have "\<bar>1 - q\<bar> * e \<le> (2 + 2 * t) * e" using b1 e(1) by (rule mult_right_mono)
  moreover have "(2 + 2 * t) * e = 2 * e + 2 * (t * e)" by (simp add: algebra_simps)
  moreover have "\<bar>a - (1 - q)\<bar> \<le> \<bar>1 - q\<bar> * e + n" unfolding a_def by (rule err)
  ultimately have 2: "\<bar>a - (1 - q)\<bar> \<le> 2 * e + 2 * (t * e) + n" by linarith
  have 4: "\<bar>a - (1 - t)\<bar> \<le> 2 * e + 3 * (t * e) + 2 * n" using 1 2 by linarith
  have b2: "\<bar>a * 100\<bar> \<le> 200 + 200 * t" using 4 te e n assms by linarith
  have "\<bar>a * 100\<bar> * e \<le> (200 + 200 * t) * e" using b2 e(1) by (rule mult_right_mono)
  moreover have "(200 + 200 * t) * e = 200 * e + 200 * (t * e)" by (simp add: algebra_simps)
  moreover have "\<bar>p - a * 100\<bar> \<le> \<bar>a * 100\<bar> * e + n" unfolding p_def by (rule err)
  ultimately have 3: "\<bar>p - a * 100\<bar> \<le> 200 * e + 200 * (t * e) + n" by linarith
  have eq: "(1 - t) * 100 = 100 - 100 * t" by simp
  have "\<bar>p - (100 - 100 * t)\<bar> \<le> 400 * e + 500 * (t * e) + 201 * n"
    using 3 4 by linarith
  then have "\<bar>p - (1 - t) * 100\<bar> \<le> 400 * e + 500 * (t * e) + 201 * n"
    by (simp only: eq)
  then have "\<bar>p - (1 - t) * 100\<bar> \<le> 512 * e + 512 * (t * e)"
    using te(1) n(3) by linarith
  also have "\<dots> = (1 + t) / 2 ^ 44" by (simp add: e_def algebra_simps)
  finally show ?thesis by (simp add: p_def a_def q_def)
qed

text \<open>\<open>Math.round\<close> of a value \<open>p\<close> that is within \<open>d\<close> of \<open>x\<close>.\<close>

lemma round_near:
  fixes p x d :: real
  assumes "\<bar>p - x\<bar> \<le> d"
  shows "\<bar>of_int (js_round p) - x\<bar> \<le> 1 / 2 + d"
    and "d \<le> frac (x + 1 / 2) \<Longrightarrow> frac (x + 1 / 2) < 1 - d \<Longrightarrow> js_round p = round x"
proof -
  have "of_int \<lfloor>p + 1 / 2\<rfloor> \<le> p + 1 / 2" "p + 1 / 2 < of_int \<lfloor>p + 1 / 2\<rfloor> + 1" by linarith+
  then show "\<bar>of_int (js_round p) - x\<bar> \<le> 1 / 2 + d"
    using assms unfolding js_round_def by linarith
next
  assume a: "d \<le> frac (x + 1 / 2)" "frac (x + 1 / 2) < 1 - d"
  have "of_int (round x) \<le> p + 1 / 2 \<and> p + 1 / 2 < of_int (round x) + 1"
    using a assms by (simp add: frac_def round_def; linarith)
  then show "js_round p = round x" by (simp add: js_round_def floor_unique)
qed

text \<open>The double of a binary64 value is computed exactly.\<close>

lemma fl_twice:
  assumes "fl x = x"
  shows "fl (x * 2) = x * 2"
proof (cases "x = 0")
  case True
  then show ?thesis by (simp add: fl_def)
next
  case False
  define e where "e = binary64_exp x"
  define n where "n = round_even (x / 2 powr of_int e)"
  have x: "x = of_int n * 2 powr of_int e"
    using assms False by (simp add: fl_def n_def e_def)
  have lg: "\<lfloor>log 2 \<bar>x * 2\<bar>\<rfloor> = \<lfloor>log 2 \<bar>x\<bar>\<rfloor> + 1"
    using False by (simp add: abs_mult log_mult)
  have e2: "binary64_exp (x * 2) = e \<or> binary64_exp (x * 2) = e + 1"
    unfolding binary64_exp_def e_def lg by (auto simp: max_def)
  then show ?thesis
  proof
    assume h: "binary64_exp (x * 2) = e"
    have "x * 2 / 2 powr of_int e = of_int (n * 2)"
      using x by simp
    then have "round_even (x * 2 / 2 powr of_int e) = n * 2" by (metis round_even_int)
    then show ?thesis using False h x by (simp add: fl_def)
  next
    assume h: "binary64_exp (x * 2) = e + 1"
    have p: "(2::real) powr of_int (e + 1) = 2 powr of_int e * 2" by (simp add: powr_add)
    then have "x * 2 / 2 powr of_int (e + 1) = of_int n"
      using x by simp
    then have "round_even (x * 2 / 2 powr of_int (e + 1)) = n" by (metis round_even_int)
    then show ?thesis using False h x p by (simp add: fl_def)
  qed
qed

lemma fl_two: "fl 2 = 2"
  using fl_eval [of 1 2] by (simp add: round_even_def powr_minus_divide)

lemma js_div_pos: "0 < b \<Longrightarrow> js_div a b = js_num (real a / real b)"
  by (simp add: js_div_def)

lemma js_div_double: "0 < b \<Longrightarrow> js_div (2 * b) b = Fin 2"
  by (simp add: js_div_def js_num_def fl_two)

lemma js_mul_two:
  assumes "fl x = x" and "\<bar>x\<bar> < 2 ^ 1023"
  shows "js_mul x (Fin 2) = Fin (2 * x)"
proof -
  have "fl (x * 2) = x * 2" using assms(1) by (rule fl_twice)
  moreover have "\<bar>x * 2\<bar> < 2 ^ 1024" using assms(2) by simp
  ultimately show ?thesis by (simp add: js_num_def mult.commute abs_less_iff)
qed

lemma js_num_fin: "fl x = y \<Longrightarrow> \<bar>y\<bar> < 2 ^ 1024 \<Longrightarrow> js_num x = Fin y"
  by (auto simp: js_num_def Let_def)

text \<open>
  Two products that binary64 arithmetic rounds: a crop coordinate of 10 on an image of
  native width 1000 displayed 300 wide is read at \<open>33.333333333333336\<close>, and
  \<open>49 * (1 / 49)\<close> is \<open>0.9999999999999999\<close>.
\<close>

lemma rounded_scale_example:
  "js_div 1000 300 = Fin (7505999378950827 / 2 ^ 51)"
  "js_mul 10 (js_div 1000 300) = Fin (4691249611844267 / 2 ^ 47)"
proof -
  have q: "fl (10 / 3) = 7505999378950827 / 2 ^ 51"
    using fl_eval [of 1 "10 / 3"] by (simp add: round_even_def powr_minus_divide)
  have "js_div 1000 300 = js_num (10 / 3)" by (simp add: js_div_def)
  also have "\<dots> = Fin (7505999378950827 / 2 ^ 51)" by (rule js_num_fin [OF q]) simp
  finally show d: "js_div 1000 300 = Fin (7505999378950827 / 2 ^ 51)" .
  have p: "fl (10 * (7505999378950827 / 2 ^ 51)) = 4691249611844267 / 2 ^ 47"
    using fl_eval [of 5 "10 * (7505999378950827 / 2 ^ 51)"]
    by (simp add: round_even_def powr_minus_divide)
  have "js_mul 10 (js_div 1000 300) = js_num (10 * (7505999378950827 / 2 ^ 51))"
    by (simp only: d js_mul.simps)
  also have "\<dots> = Fin (4691249611844267 / 2 ^ 47)" by (rule js_num_fin [OF p]) simp
  finally show "js_mul 10 (js_div 1000 300) = Fin (4691249611844267 / 2 ^ 47)" .
qed

lemma rounded_product_example:
  "js_mul 49 (js_div 1 49) = Fin (9007199254740991 / 2 ^ 53)"
proof -
  have q: "fl (1 / 49) = 5882252574524729 / 2 ^ 58"
    using fl_eval [of "- 6" "1 / 49"] by (simp add: round_even_def powr_minus_divide)
  have "js_div 1 49 = js_num (1 / 49)" by (simp add: js_div_def)
  also have "\<dots> = Fin (5882252574524729 / 2 ^ 58)" by (rule js_num_fin [OF q]) simp
  finally have d: "js_div 1 49 = Fin (5882252574524729 / 2 ^ 58)" .
  have p: "fl (49 * (5882252574524729 / 2 ^ 58)) = 9007199254740991 / 2 ^ 53"
    using fl_eval [of "- 1" "49 * (5882252574524729 / 2 ^ 58)"]
    by (simp add: round_even_def powr_minus_divide)
  have "js_mul 49 (js_div 1 49) = js_num (49 * (5882252574524729 / 2 ^ 58))"
    by (simp only: d js_mul.simps)
  also have "\<dots> = Fin (9007199254740991 / 2 ^ 53)" by (rule js_num_fin [OF p]) simp
  finally show ?thesis .
qed

text \<open>The product of a number of the crop with the scale of a half-size display.\<close>

lemma half_scale:
  assumes "0 < w" and "fl v = v \<and> \<bar>v\<bar> < 2 ^ 1023"
  shows "js_mul v (js_div (2 * w) w) = Fin (2 * v)"
  using assms js_mul_two [of v] by (simp only: js_div_double)

lemma doubles_below_fields:
  assumes "doubles_below b c"
  shows "fl (crop_x c) = crop_x c \<and> \<bar>crop_x c\<bar> < b"
    and "fl (crop_y c) = crop_y c \<and> \<bar>crop_y c\<bar> < b"
    and "fl (crop_width c) = crop_width c \<and> \<bar>crop_width c\<bar> < b"
    and "fl (crop_height c) = crop_height c \<and> \<bar>crop_height c\<bar> < b"
  using assms by (simp_all add: doubles_below_def)

text \<open>A whole number below \<open>2^31\<close> is the canvas dimension it is assigned to.\<close>

lemma canvas_dimension_nat: "w < 2 ^ 31 \<Longrightarrow> canvas_dimension dflt (real w) = w"
proof -
  assume a: "w < 2 ^ 31"
  then have "int w mod 2 ^ 32 = int w" by simp
  then have "to_unsigned_long (real w) = w" by (simp add: to_unsigned_long_def)
  then show ?thesis using a by (simp add: canvas_dimension_def)
qed

text \<open>The numbers of the sample inputs are binary64 values.\<close>

lemma fl_sample:
  "fl 10 = 10" "fl 20 = 20" "fl 300 = 300" "fl 200 = 200"
  using fl_eval [of 3 10] fl_eval [of 4 20] fl_eval [of 8 300] fl_eval [of 7 200]
  by (simp_all add: round_even_def powr_minus_divide)

lemma sample_crop_doubles: "doubles_below (2 ^ 1023) sample_crop"
  by (simp add: doubles_below_def sample_crop_def fl_sample)

lemma sample_crop_dimensions:
  "canvas_dimension dflt 300 = 300" "canvas_dimension dflt 200 = 200"
  using canvas_dimension_nat [of 300 dflt] canvas_dimension_nat [of 200 dflt] by simp_all

text \<open>The three rounded operations at 17 of 40 bytes.\<close>

lemma fl_tie_quotient: "fl (17 / 40) = 7656119366529843 / 2 ^ 54"
  using fl_eval [of "- 2" "17 / 40"] by (simp add: round_even_def powr_minus_divide)

lemma fl_tie_difference: "fl (1 - 7656119366529843 / 2 ^ 54) = 5179139571476070 / 2 ^ 53"
  using fl_eval [of "- 1" "1 - 7656119366529843 / 2 ^ 54"]
  by (simp add: round_even_def powr_minus_divide)

lemma fl_tie_product: "fl (5179139571476070 / 2 ^ 53 * 100) = 8092405580431359 / 2 ^ 47"
  using fl_eval [of 5 "5179139571476070 / 2 ^ 53 * 100"]
  by (simp add: round_even_def powr_minus_divide)

section \<open>Properties of the size statistics\<close>

text \<open>
  The unit index is the integer logarithm to base 1024: \<open>Math.log(bytes) / Math.log(k)\<close> is
  the logarithm of \<open>bytes\<close> to base \<open>k\<close>.
\<close>

lemma unit_index_log: "unit_index bytes = \<lfloor>log 1024 (real bytes)\<rfloor>"
  by (simp add: unit_index_def log_def)

lemma unit_index_eq:
  assumes "1024 ^ n \<le> bytes" "bytes < 1024 ^ (n + 1)"
  shows "unit_index bytes = int n"
proof -
  have "\<lfloor>log 1024 (real bytes)\<rfloor> = int n"
    using floor_log_nat_eq_if [of 1024 n bytes] assms by simp
  then show ?thesis by (simp add: unit_index_log)
qed

lemma unit_index_small:
  assumes "1 \<le> bytes" "bytes < 1024 ^ 4"
  shows "0 \<le> unit_index bytes \<and> unit_index bytes < 4"
proof -
  have pos: "0 < real bytes" using assms(1) by simp
  have "0 \<le> log 1024 (real bytes)" using assms(1) by simp
  then have lo: "0 \<le> unit_index bytes" by (simp add: unit_index_log)
  have "real bytes < 1024 powr 4" using assms(2)
    by (metis of_nat_less_iff of_nat_numeral of_nat_power numeral_powr_numeral_real)
  then have "log 1024 (real bytes) < 4" using pos by (simp add: log_less_iff)
  then have "unit_index bytes < 4" by (simp add: unit_index_log floor_less_iff)
  with lo show ?thesis by simp
qed

lemma unit_index_large:
  assumes "1024 ^ 4 \<le> bytes"
  shows "4 \<le> unit_index bytes"
proof -
  have "(1024::real) ^ 4 \<le> real bytes" using assms
    by (metis of_nat_le_iff of_nat_numeral of_nat_power)
  then have pos: "0 < real bytes" and "1024 powr 4 \<le> real bytes" by simp_all
  then have "4 \<le> log 1024 (real bytes)" by (simp add: le_log_iff)
  then show ?thesis by (simp add: unit_index_log le_floor_iff)
qed

lemmas formatBytes_eval = formatBytes_def js_round_def show_hundredths_def show_nat.simps
  digit_char_def js_index_def sizes_def js_string_of_def

text \<open>
  C4, as stated, fails: for a file of 40 bytes processed to 17 bytes, \<open>(1 - 17/40) * 100\<close>
  is \<open>57.5\<close>, whose rounding is 58, while the three rounded operations of the code give
  \<open>57.49999999999999\<close>, which \<open>Math.round\<close> takes to 57.
\<close>

theorem compressionRatio_tie:
  "compressionRatio tie_state = 57 \<and>
   round ((1 - real (compressedSize tie_state) / real (originalSize tie_state)) * 100) = 58"
proof
  have v: "fl (fl (1 - fl (17 / 40)) * 100) = 8092405580431359 / 2 ^ 47"
    by (simp only: fl_tie_quotient fl_tie_difference fl_tie_product)
  have "compressionRatio tie_state = js_round (fl (fl (1 - fl (17 / 40)) * 100))"
    by (simp add: compressionRatio_def tie_state_def initial_state_def)
  also have "\<dots> = js_round (8092405580431359 / 2 ^ 47)" by (simp only: v)
  also have "\<dots> = 57" by (simp add: js_round_def)
  finally show "compressionRatio tie_state = 57" .
  show "round ((1 - real (compressedSize tie_state) / real (originalSize tie_state)) * 100) = 58"
    by (simp add: tie_state_def initial_state_def round_def)
qed

text \<open>
  C4, amended. The ratio is 0 when \<open>originalSize\<close> or \<open>compressedSize\<close> is 0. Otherwise it
  is \<open>Math.round\<close> of the binary64 value of \<open>(1 - compressedSize / originalSize) * 100\<close>,
  which is within \<open>d = (1 + compressedSize / originalSize) / 2^44\<close> of the exact value
  \<open>x\<close>: the ratio is an integer within \<open>1/2 + d\<close> of \<open>x\<close>, and it is the rounding of \<open>x\<close>
  whenever \<open>x\<close> is not within \<open>d\<close> of a tie, that is, whenever the fractional part of
  \<open>x + 1/2\<close> is at least \<open>d\<close> and below \<open>1 - d\<close>.
\<close>

theorem compressionRatio_near_exact:
  "(originalSize s = 0 \<or> compressedSize s = 0 \<longrightarrow> compressionRatio s = 0) \<and>
   (0 < originalSize s \<and> 0 < compressedSize s \<longrightarrow>
      (let x = (1 - real (compressedSize s) / real (originalSize s)) * 100;
           d = (1 + real (compressedSize s) / real (originalSize s)) / 2 ^ 44
       in compressionRatio s
            = js_round (fl (fl (1 - fl (real (compressedSize s) / real (originalSize s))) * 100)) \<and>
          \<bar>of_int (compressionRatio s) - x\<bar> \<le> 1 / 2 + d \<and>
          (d \<le> frac (x + 1 / 2) \<and> frac (x + 1 / 2) < 1 - d \<longrightarrow> compressionRatio s = round x)))"
proof (intro conjI impI)
  assume "originalSize s = 0 \<or> compressedSize s = 0"
  then show "compressionRatio s = 0" by (auto simp: compressionRatio_def)
next
  assume pos: "0 < originalSize s \<and> 0 < compressedSize s"
  define t where "t = real (compressedSize s) / real (originalSize s)"
  have t: "0 < t" using pos by (simp add: t_def)
  have r: "compressionRatio s = js_round (fl (fl (1 - fl t) * 100))"
    using pos by (simp add: compressionRatio_def t_def)
  note b = ratio_err [OF t]
  show "let x = (1 - real (compressedSize s) / real (originalSize s)) * 100;
            d = (1 + real (compressedSize s) / real (originalSize s)) / 2 ^ 44
        in compressionRatio s
             = js_round (fl (fl (1 - fl (real (compressedSize s) / real (originalSize s))) * 100)) \<and>
           \<bar>of_int (compressionRatio s) - x\<bar> \<le> 1 / 2 + d \<and>
           (d \<le> frac (x + 1 / 2) \<and> frac (x + 1 / 2) < 1 - d \<longrightarrow> compressionRatio s = round x)"
    unfolding Let_def t_def [symmetric] r
    using round_near(1) [OF b] round_near(2) [OF b] by blast
qed

theorem compressionRatio_near_exact_witness:
  "compressionRatio (initial_state\<lparr>originalSize := 2000, compressedSize := 500\<rparr>) = 75 \<and>
   compressionRatio (initial_state\<lparr>originalSize := 2000\<rparr>) = 0"
  using compressionRatio_near_exact [of "initial_state\<lparr>originalSize := 2000, compressedSize := 500\<rparr>"]
    compressionRatio_near_exact [of "initial_state\<lparr>originalSize := 2000\<rparr>"]
  by (simp add: initial_state_def round_def frac_def Let_def)

text \<open>
  C5. \<open>formatBytes(0)\<close> is \<open>"0 Bytes"\<close>, \<open>formatBytes(1024)\<close> is \<open>"1 KB"\<close> and
  \<open>formatBytes(1536)\<close> is \<open>"1.5 KB"\<close>.
\<close>

theorem formatBytes_examples:
  "formatBytes 0 = ''0 Bytes'' \<and> formatBytes 1024 = ''1 KB'' \<and> formatBytes 1536 = ''1.5 KB''"
proof (intro conjI)
  show "formatBytes 0 = ''0 Bytes''" by (simp add: formatBytes_def)
  show "formatBytes 1024 = ''1 KB''"
    using unit_index_eq [of 1 1024] by (simp add: formatBytes_eval)
  show "formatBytes 1536 = ''1.5 KB''"
    using unit_index_eq [of 1 1536] by (simp add: formatBytes_eval)
qed

text \<open>
  C10. \<open>formatBytes\<close> has unit names up to \<open>GB\<close> only. For \<open>1 \<le> bytes < 1024^4\<close> the unit
  index lies within \<open>sizes\<close>; for \<open>bytes \<ge> 1024^4\<close> the index is at least 4, the lookup
  falls outside the list, and the result ends in \<open>undefined\<close> instead of a unit name.
\<close>

theorem formatBytes_unit_range:
  "(1 \<le> bytes \<and> bytes < 1024 ^ 4 \<longrightarrow>
      0 \<le> unit_index bytes \<and> unit_index bytes < int (length sizes) \<and>
      js_index sizes (unit_index bytes) \<noteq> None) \<and>
   (1024 ^ 4 \<le> bytes \<longrightarrow>
      4 \<le> unit_index bytes \<and> js_index sizes (unit_index bytes) = None \<and>
      (\<exists>m. formatBytes bytes = m @ '' undefined''))"
proof (intro conjI impI)
  assume "1 \<le> bytes \<and> bytes < 1024 ^ 4"
  then have r: "0 \<le> unit_index bytes \<and> unit_index bytes < 4"
    using unit_index_small by blast
  have len: "length sizes = 4" by (simp add: sizes_def)
  show "0 \<le> unit_index bytes" using r by simp
  show "unit_index bytes < int (length sizes)" using r by (simp add: len)
  show "js_index sizes (unit_index bytes) \<noteq> None" using r by (auto simp: js_index_def len)
next
  assume a: "1024 ^ 4 \<le> bytes"
  then have r: "4 \<le> unit_index bytes" by (rule unit_index_large)
  have len: "length sizes = 4" by (simp add: sizes_def)
  show "4 \<le> unit_index bytes" by (rule r)
  show n: "js_index sizes (unit_index bytes) = None" using r by (simp add: js_index_def len)
  have "bytes \<noteq> 0" using a by auto
  then show "\<exists>m. formatBytes bytes = m @ '' undefined''"
    using n by (simp add: formatBytes_def Let_def js_string_of_def)
qed

theorem formatBytes_unit_range_witness:
  "unit_index 5000000 < int (length sizes) \<and> js_index sizes (unit_index (1024 ^ 4)) = None"
  using formatBytes_unit_range [of 5000000] formatBytes_unit_range [of "1024 ^ 4"]
  by simp

section \<open>Properties of the crop extractor\<close>

text \<open>With a 2d context, the canvas handed to \<open>toBlob\<close> is this one.\<close>

lemma getCroppedImage_canvas_ok:
  "getContext2d env \<Longrightarrow>
   getCroppedImage_canvas env img c =
     Inr \<lparr>canvas_width = canvas_dimension 300 (crop_width c),
          canvas_height = canvas_dimension 150 (crop_height c),
          drawn = [\<lparr>src_image = img,
                    sx = js_mul (crop_x c) (js_div (naturalWidth img) (img_width img)),
                    sy = js_mul (crop_y c) (js_div (naturalHeight img) (img_height img)),
                    sw = js_mul (crop_width c) (js_div (naturalWidth img) (img_width img)),
                    sh = js_mul (crop_height c) (js_div (naturalHeight img) (img_height img)),
                    dx = 0, dy = 0, dw = crop_width c, dh = crop_height c\<rparr>]\<rparr>"
  by (simp add: getCroppedImage_canvas_def drawImage_def Let_def)

lemma getCroppedImage_type:
  "getCroppedImage env img c = Inr b \<Longrightarrow> blob_type b = ''image/jpeg''"
  by (auto simp: getCroppedImage_def toBlob_def split: sum.splits option.splits)

text \<open>A width or height that is not a whole number loses its fraction on the canvas.\<close>

lemma fractional_crop_truncated:
  "getCroppedImage_canvas sample_env half_displayed fractional_crop = Inr cv \<Longrightarrow>
   canvas_width cv = 300 \<and> canvas_height cv = 200"
  by (auto simp: getCroppedImage_canvas_def drawImage_def sample_env_def fractional_crop_def
      canvas_dimension_def to_unsigned_long_def Let_def)

text \<open>
  C1. For every crop rectangle \<open>(x, y, width, height)\<close> in displayed-pixel coordinates,
  \<open>getCroppedImage\<close> encodes a canvas on which it made one \<open>drawImage\<close> call, and that call
  reads from the image the region \<open>(x * scaleX, y * scaleY, width * scaleX, height * scaleY)\<close>
  with \<open>scaleX = naturalWidth / width\<close> and \<open>scaleY = naturalHeight / height\<close> of the image,
  as the arithmetic of numbers computes them. When the image is displayed, with positive
  dimensions, at exactly half its native size, the region is exactly the double of the
  crop rectangle, in its coordinates and in its dimensions (the four fields being
  numbers whose double does not overflow).
\<close>

theorem getCroppedImage_source_rect:
  assumes "getContext2d env"
  shows "\<exists>cv d. getCroppedImage_canvas env img c = Inr cv \<and>
     getCroppedImage env img c =
       (case toBlob env cv ''image/jpeg'' of
          None \<Rightarrow> Inl (Error ''Canvas is empty'')
        | Some b \<Rightarrow> Inr b) \<and>
     drawn cv = [d] \<and> src_image d = img \<and>
     source_rect d =
       (js_mul (crop_x c) (js_div (naturalWidth img) (img_width img)),
        js_mul (crop_y c) (js_div (naturalHeight img) (img_height img)),
        js_mul (crop_width c) (js_div (naturalWidth img) (img_width img)),
        js_mul (crop_height c) (js_div (naturalHeight img) (img_height img))) \<and>
     (0 < img_width img \<and> 0 < img_height img \<and>
      naturalWidth img = 2 * img_width img \<and> naturalHeight img = 2 * img_height img \<and>
      doubles_below (2 ^ 1023) c \<longrightarrow>
        source_rect d =
          (Fin (2 * crop_x c), Fin (2 * crop_y c), Fin (2 * crop_width c), Fin (2 * crop_height c)))"
proof -
  have half: "source_rect
       \<lparr>src_image = img,
        sx = js_mul (crop_x c) (js_div (naturalWidth img) (img_width img)),
        sy = js_mul (crop_y c) (js_div (naturalHeight img) (img_height img)),
        sw = js_mul (crop_width c) (js_div (naturalWidth img) (img_width img)),
        sh = js_mul (crop_height c) (js_div (naturalHeight img) (img_height img)),
        dx = 0, dy = 0, dw = crop_width c, dh = crop_height c\<rparr>
      = (Fin (2 * crop_x c), Fin (2 * crop_y c), Fin (2 * crop_width c), Fin (2 * crop_height c))"
    if "0 < img_width img" "0 < img_height img" "naturalWidth img = 2 * img_width img"
      "naturalHeight img = 2 * img_height img" "doubles_below (2 ^ 1023) c"
    using that(1,2) doubles_below_fields [OF that(5)]
    by (simp only: source_rect_def that(3,4) half_scale drawImage_call.simps)
  show ?thesis
    using assms half
    by (simp add: getCroppedImage_canvas_ok getCroppedImage_def)
      (simp add: source_rect_def)
qed

theorem getCroppedImage_source_rect_witness:
  "\<exists>cv d. getCroppedImage_canvas sample_env half_displayed sample_crop = Inr cv \<and> drawn cv = [d] \<and>
     source_rect d = (Fin 20, Fin 40, Fin 600, Fin 400)"
  using getCroppedImage_source_rect [of sample_env half_displayed sample_crop] sample_crop_doubles
  by (auto simp: sample_env_def half_displayed_def sample_crop_def)



text \<open>
  C9. Whenever \<open>processImage\<close> applies a crop, the blob of \<open>getCroppedImage\<close> has type
  \<open>image/jpeg\<close>, whatever the state (and so whatever the selected output format), while
  the file handed to the compressor wraps the blob's content under the name and the type
  of the selected file: when the selected file is not a JPEG, the type of the wrapper is
  not the type of the blob.
\<close>

theorem cropped_blob_jpeg_wrapper_type:
  assumes "completedCrop s = Some c" and "getCroppedImage env img c = Inr b"
  shows "blob_type b = ''image/jpeg'' \<and>
     (\<exists>w. fileToProcess env (Some img) s sel = Inr w \<and>
        file_name w = file_name sel \<and> blob_type w = blob_type sel \<and>
        blob_bytes w = blob_bytes b \<and>
        (blob_type sel \<noteq> ''image/jpeg'' \<longrightarrow> blob_type w \<noteq> blob_type b))"
  using assms getCroppedImage_type [OF assms(2)]
  by (simp add: fileToProcess_def File_new_def)

theorem cropped_blob_jpeg_wrapper_type_witness:
  "\<exists>b w. getCroppedImage sample_env half_displayed sample_crop = Inr b \<and>
     fileToProcess sample_env (Some half_displayed) (busy_state\<lparr>outputFormat := Webp\<rparr>) png_photo
       = Inr w \<and>
     blob_type b = ''image/jpeg'' \<and> blob_type w = ''image/png'' \<and> file_name w = ''shot.png''"
proof -
  have b: "getCroppedImage sample_env half_displayed sample_crop =
      Inr \<lparr>blob_bytes = [255, 216, 255], blob_type = ''image/jpeg'',
           raster_width = 300, raster_height = 200\<rparr>"
    by (simp add: getCroppedImage_def getCroppedImage_canvas_def drawImage_def toBlob_def
        sample_env_def sample_crop_def sample_crop_dimensions Let_def)
  have c: "completedCrop (busy_state\<lparr>outputFormat := Webp\<rparr>) = Some sample_crop"
    by (simp add: busy_state_def)
  show ?thesis
    using cropped_blob_jpeg_wrapper_type [OF c b, of png_photo] b
    by (auto simp: png_photo_def)
qed

section \<open>Properties of the document export\<close>

lemma convertToPDF_doc_loaded:
  "load_image env f = Some (w, h) \<Longrightarrow>
   convertToPDF_doc env f =
     Some \<lparr>pdf_orientation = (if w > h then Landscape else Portrait), pdf_unit = ''px'',
           pdf_format = (w, h),
           pdf_pages = [[\<lparr>image_data = dataURL env f, image_format = ''JPEG'',
                          image_x = 0, image_y = 0, image_w = w, image_h = h\<rparr>]]\<rparr>"
  by (simp add: convertToPDF_doc_def jsPDF_new_def addImage_def)

text \<open>
  C3. When the output format is \<open>pdf\<close> and the compressor yields an image \<open>f\<close> of \<open>w\<close> by
  \<open>h\<close> pixels, \<open>processImage\<close> ends with the blob that \<open>convertToPDF\<close> gives for \<open>f\<close>: the
  serialisation of a document of one page, of format exactly \<open>(w, h)\<close> in pixels, landscape
  if and only if \<open>w > h\<close> and portrait otherwise, with the image placed at the origin
  with width \<open>w\<close> and height \<open>h\<close>.
\<close>

theorem convertToPDF_single_page:
  assumes "selectedFile s = Some sel" and "outputFormat s = Pdf"
    and "fileToProcess env imgRef s sel = Inr f0"
    and "imageCompression env f0 (compression_options s) = Inr f"
    and "load_image env f = Some (w, h)"
  shows "\<exists>doc. convertToPDF_doc env f = Some doc \<and>
     convertToPDF env f = Some (pdf_output env doc) \<and>
     length (pdf_pages doc) = 1 \<and>
     pdf_format doc = (w, h) \<and> pdf_unit doc = ''px'' \<and>
     (pdf_orientation doc = Landscape \<longleftrightarrow> w > h) \<and>
     (pdf_orientation doc = Portrait \<longleftrightarrow> \<not> w > h) \<and>
     pdf_pages doc = [[\<lparr>image_data = dataURL env f, image_format = ''JPEG'',
                        image_x = 0, image_y = 0, image_w = w, image_h = h\<rparr>]] \<and>
     processImage env imgRef s =
       Some (s\<lparr>isProcessing := False, compressedSize := blob_size (pdf_output env doc),
               processedImage := Some (createObjectURL env (pdf_output env doc))\<rparr>, [])"
  using assms
  by (simp add: convertToPDF_doc_loaded convertToPDF_def processImage_def Let_def)

theorem convertToPDF_single_page_witness:
  "\<exists>doc. convertToPDF_doc sample_env png_photo = Some doc \<and> length (pdf_pages doc) = 1 \<and>
     pdf_format doc = (640, 480) \<and> pdf_orientation doc = Landscape \<and>
     processImage sample_env None (initial_state\<lparr>selectedFile := Some png_photo, outputFormat := Pdf\<rparr>)
       = Some (initial_state\<lparr>selectedFile := Some png_photo, outputFormat := Pdf,
                 compressedSize := 4, processedImage := Some ''blob:0''\<rparr>, [])"
proof -
  let ?s = "initial_state\<lparr>selectedFile := Some png_photo, outputFormat := Pdf\<rparr>"
  have 1: "selectedFile ?s = Some png_photo" and 2: "outputFormat ?s = Pdf" by simp_all
  have 3: "fileToProcess sample_env None ?s png_photo = Inr png_photo"
    by (simp add: fileToProcess_def initial_state_def)
  have 4: "imageCompression sample_env png_photo (compression_options ?s) = Inr png_photo"
    by (simp add: sample_env_def)
  have 5: "load_image sample_env png_photo = Some (640, 480)"
    by (simp add: sample_env_def)
  show ?thesis
    using convertToPDF_single_page [OF 1 2 3 4 5]
    by (auto simp: sample_env_def initial_state_def blob_size_def)
qed

section \<open>Properties of the input acquisition\<close>

text \<open>An event that carries no file leaves the component as it is.\<close>

lemma handleFileSelect_no_file: "handleFileSelect env None s = (s, [])"
  by (simp add: handleFileSelect_def)

text \<open>
  C6. For every selection of a file \<open>f\<close>, whatever its type and whatever the decoder
  does, the state after \<open>handleFileSelect\<close> has no processed image, no completed crop, and
  crop mode off.
\<close>

theorem handleFileSelect_clears:
  "processedImage (fst (handleFileSelect env (Some f) s)) = None \<and>
   completedCrop (fst (handleFileSelect env (Some f) s)) = None \<and>
   showCrop (fst (handleFileSelect env (Some f) s)) = False"
  by (simp add: handleFileSelect_def Let_def split: sum.split prod.split)

theorem handleFileSelect_clears_witness:
  "processedImage busy_state \<noteq> None \<and> completedCrop busy_state \<noteq> None \<and> showCrop busy_state \<and>
   processedImage (fst (handleFileSelect sample_env (Some png_photo) busy_state)) = None \<and>
   completedCrop (fst (handleFileSelect sample_env (Some png_photo) busy_state)) = None \<and>
   \<not> showCrop (fst (handleFileSelect sample_env (Some png_photo) busy_state))"
  using handleFileSelect_clears [of sample_env png_photo busy_state]
  by (simp add: busy_state_def initial_state_def)

text \<open>
  C7, as stated, fails: the selection of a HEIC file whose decoding fails, in a state that
  holds an earlier file with its result and crop, changes the selected file, the
  processed image, the completed crop and the crop mode.
\<close>

theorem heic_failure_changes_state:
  "heic2any sample_env heic_photo = Inl (Error ''decode failed'') \<and>
   selectedFile (fst (handleFileSelect sample_env (Some heic_photo) busy_state))
     \<noteq> selectedFile busy_state \<and>
   processedImage (fst (handleFileSelect sample_env (Some heic_photo) busy_state))
     \<noteq> processedImage busy_state \<and>
   completedCrop (fst (handleFileSelect sample_env (Some heic_photo) busy_state))
     \<noteq> completedCrop busy_state \<and>
   showCrop (fst (handleFileSelect sample_env (Some heic_photo) busy_state))
     \<noteq> showCrop busy_state"
  by (simp add: handleFileSelect_def sample_env_def heic_photo_def busy_state_def
      initial_state_def png_photo_def Let_def)

text \<open>
  C7, amended. For every HEIC file whose decoding fails, \<open>handleFileSelect\<close> logs the error
  and raises the alert, starts no reader, and leaves the original image and the settings
  as they were; the selected file and the original size become those of the new file, and
  the processed image, the completed crop and the crop mode are cleared.
\<close>

theorem heic_failure_state:
  assumes "blob_type f = ''image/heic'' \<or> endsWith (toLowerCase (file_name f)) ''.heic''"
    and "heic2any env f = Inl e"
  shows "handleFileSelect env (Some f) s =
     (s\<lparr>selectedFile := Some f, originalSize := blob_size f,
        processedImage := None, completedCrop := None, showCrop := False\<rparr>,
      [CallHeic2any f, ConsoleError ''HEIC conversion error:'',
       Alert ''Error converting HEIC file''])"
  using assms by (simp add: handleFileSelect_def Let_def)

theorem heic_failure_state_witness:
  "originalImage (fst (handleFileSelect sample_env (Some heic_photo) busy_state))
     = originalImage busy_state \<and>
   selectedFile (fst (handleFileSelect sample_env (Some heic_photo) busy_state)) = Some heic_photo \<and>
   Alert ''Error converting HEIC file''
     \<in> set (snd (handleFileSelect sample_env (Some heic_photo) busy_state))"
  using heic_failure_state [of heic_photo sample_env "Error ''decode failed''" busy_state]
  by (simp add: sample_env_def heic_photo_def)

text \<open>The condition of \<open>handleFileSelect\<close> and the specification's condition.\<close>

lemma toLowerCase_heic: "toLowerCase ''.heic'' = ''.heic''" "toLowerCase ''image/heic'' = ''image/heic''"
  by (simp_all add: toLowerCase_def toLowerCase_char_def)

lemma endsWith_heic:
  "endsWith (toLowerCase n) ''.heic'' \<longleftrightarrow>
     5 \<le> length n \<and> equal_ignoring_case (drop (length n - 5) n) ''.heic''"
proof -
  have "drop (length n - 5) (toLowerCase n) = toLowerCase (drop (length n - 5) n)"
    by (simp add: toLowerCase_def drop_map)
  moreover have "length ''.heic'' = 5" "length (toLowerCase n) = length n"
    by (simp_all add: toLowerCase_def)
  ultimately show ?thesis
    by (simp only: endsWith_def equal_ignoring_case_def toLowerCase_heic)
qed

lemma heic_condition_spec:
  assumes "toLowerCase (blob_type f) = blob_type f"
  shows "blob_type f = ''image/heic'' \<or> endsWith (toLowerCase (file_name f)) ''.heic''
     \<longleftrightarrow> spec_requires_heic f"
  using assms by (simp add: spec_requires_heic_def endsWith_heic equal_ignoring_case_def toLowerCase_heic)

text \<open>
  C8. For every input file, with its declared type in ASCII lower case as the type of
  every \<open>File\<close> is, \<open>handleFileSelect\<close> hands the file to the HEIC decoder if and only if
  its declared MIME type is the HEIC image type or its filename ends with the \<open>.heic\<close>
  suffix, both compared without regard to case; a file that needs no decoding is read
  directly.
\<close>

theorem heic_routing:
  assumes "toLowerCase (blob_type f) = blob_type f"
  shows "(CallHeic2any f \<in> set (snd (handleFileSelect env (Some f) s)) \<longleftrightarrow> spec_requires_heic f) \<and>
     (\<not> spec_requires_heic f \<longrightarrow> snd (handleFileSelect env (Some f) s) = [ReadOriginal f])"
  using heic_condition_spec [OF assms]
  by (auto simp: handleFileSelect_def Let_def split: sum.split)

theorem heic_routing_witness:
  "CallHeic2any heic_photo \<in> set (snd (handleFileSelect sample_env (Some heic_photo) initial_state)) \<and>
   CallHeic2any untyped_heic_photo
     \<in> set (snd (handleFileSelect sample_env (Some untyped_heic_photo) initial_state)) \<and>
   CallHeic2any unnamed_heic_photo
     \<in> set (snd (handleFileSelect sample_env (Some unnamed_heic_photo) initial_state)) \<and>
   snd (handleFileSelect sample_env (Some png_photo) initial_state) = [ReadOriginal png_photo]"
proof -
  have l: "toLowerCase (blob_type heic_photo) = blob_type heic_photo"
    "toLowerCase (blob_type untyped_heic_photo) = blob_type untyped_heic_photo"
    "toLowerCase (blob_type unnamed_heic_photo) = blob_type unnamed_heic_photo"
    "toLowerCase (blob_type png_photo) = blob_type png_photo"
    by (simp_all add: heic_photo_def untyped_heic_photo_def unnamed_heic_photo_def png_photo_def
        toLowerCase_def toLowerCase_char_def)
  have q: "spec_requires_heic heic_photo" "spec_requires_heic untyped_heic_photo"
    "spec_requires_heic unnamed_heic_photo" "\<not> spec_requires_heic png_photo"
    by (simp_all add: spec_requires_heic_def equal_ignoring_case_def heic_photo_def
        untyped_heic_photo_def unnamed_heic_photo_def png_photo_def toLowerCase_def
        toLowerCase_char_def)
  show ?thesis
    using heic_routing [OF l(1), of sample_env initial_state]
      heic_routing [OF l(2), of sample_env initial_state]
      heic_routing [OF l(3), of sample_env initial_state]
      heic_routing [OF l(4), of sample_env initial_state] q
    by blast
qed

end
